theory Spec2Isabelle
  imports Main "HOL-Library.AList"
begin

section \<open>The signaling server: data model\<close>

text \<open>
  The room coordinator is the socket.io handler of the Next.js API route. Its state is
  the module-level table \<^verbatim>\<open>rooms = new Map<string, Room>()\<close>, where a room is
  \<^verbatim>\<open>{ streamer?: string; viewers: Set<string> }\<close>.

  A JavaScript \<^verbatim>\<open>Map\<close> and \<^verbatim>\<open>Set\<close> iterate in insertion order, and the
  handlers iterate over both, so the table is an association list and a viewer set is a
  list, both kept in insertion order. Connection identifiers are the socket ids, which
  are strings.
\<close>

type_synonym socketId = string
type_synonym roomId = string

record Room =
  streamer :: "socketId option"
  viewers :: "socketId list"

type_synonym table = "(roomId \<times> Room) list"

text \<open>
  What a handler does to the outside: \<^verbatim>\<open>socket.join(roomId)\<close> subscribes the
  socket to the transport's broadcast group of that name, \<^verbatim>\<open>socket.emit\<close> sends an
  event to the calling socket, and \<^verbatim>\<open>io.to(x).emit\<close> sends an event addressed to
  \<open>x\<close>. The payload of a signal (\<^verbatim>\<open>signal: unknown\<close>) is never inspected by the
  server, which passes it on as it came; it is stood for by its serialised text.
  (The \<^verbatim>\<open>console.log\<close> calls are left out.)
\<close>

type_synonym payload = string

datatype target = Direct socketId | To string

datatype event =
    Error string
  | StreamerJoined
  | ViewerJoined socketId
  | SignalFrom socketId payload
  | StreamerSignal payload
  | ViewerDisconnected socketId
  | StreamerDisconnected

datatype effect = SocketJoin socketId roomId | Emit target event

subsection \<open>The operations of Map and Set that the handlers use\<close>

definition rooms_has :: "table \<Rightarrow> roomId \<Rightarrow> bool" where
  "rooms_has t k = (map_of t k \<noteq> None)"

definition rooms_get :: "table \<Rightarrow> roomId \<Rightarrow> Room option" where
  "rooms_get t k = map_of t k"

text \<open>\<^verbatim>\<open>Map.set\<close> replaces the value of a present key in place and appends a new key.\<close>

definition rooms_set :: "table \<Rightarrow> roomId \<Rightarrow> Room \<Rightarrow> table" where
  "rooms_set t k r = AList.update k r t"

definition rooms_delete :: "table \<Rightarrow> roomId \<Rightarrow> table" where
  "rooms_delete t k = AList.delete k t"

definition viewers_add :: "socketId list \<Rightarrow> socketId \<Rightarrow> socketId list" where
  "viewers_add vs c = (if c \<in> set vs then vs else vs @ [c])"

definition viewers_delete :: "socketId list \<Rightarrow> socketId \<Rightarrow> socketId list" where
  "viewers_delete vs c = removeAll c vs"

text \<open>
  The handlers test the streamer slot by truthiness, \<^verbatim>\<open>if (room.streamer)\<close>:
  \<^verbatim>\<open>undefined\<close> and the empty string are both falsy.
\<close>

definition truthy :: "string option \<Rightarrow> bool" where
  "truthy s = (case s of None \<Rightarrow> False | Some x \<Rightarrow> x \<noteq> [])"

section \<open>The handlers\<close>

text \<open>
  \<^verbatim>\<open>socket.on('join-room', ({ roomId, role }) => ...)\<close>. The role arrives as a string
  and is only ever compared with \<^verbatim>\<open>'streamer'\<close>; every other value takes the
  \<^verbatim>\<open>else\<close> branch. The room object is mutated in place, which is an update of the
  table at its key.
\<close>

definition join_room :: "table \<Rightarrow> socketId \<Rightarrow> roomId \<Rightarrow> string \<Rightarrow> table \<times> effect list" where
  "join_room t sid roomId role =
    (let t1 = (if \<not> rooms_has t roomId
               then rooms_set t roomId \<lparr>streamer = None, viewers = []\<rparr> else t);
         room = the (rooms_get t1 roomId)
     in if role = ''streamer'' then
          (if truthy (streamer room) then
             (t1, [SocketJoin sid roomId,
                   Emit (Direct sid) (Error ''Room already has a streamer'')])
           else
             (rooms_set t1 roomId (room\<lparr>streamer := Some sid\<rparr>),
              SocketJoin sid roomId # map (\<lambda>viewerId. Emit (To viewerId) StreamerJoined) (viewers room)))
        else
          (let room' = room\<lparr>viewers := viewers_add (viewers room) sid\<rparr>
           in (rooms_set t1 roomId room',
               SocketJoin sid roomId #
                 (if truthy (streamer room')
                  then [Emit (To (the (streamer room'))) (ViewerJoined sid)] else []))))"

text \<open>
  \<^verbatim>\<open>socket.on('signal', ({ to, signal, room }) => ...)\<close>. The handler reads the table
  and never writes it, so it returns its effects only.
\<close>

definition signal :: "table \<Rightarrow> socketId \<Rightarrow> string \<Rightarrow> payload \<Rightarrow> roomId \<Rightarrow> effect list" where
  "signal t sid to payload room =
    (if to = ''streamer'' then
       (case rooms_get t room of
          None \<Rightarrow> []
        | Some roomData \<Rightarrow>
            if truthy (streamer roomData)
            then [Emit (To (the (streamer roomData))) (SignalFrom sid payload)] else [])
     else [Emit (To to) (StreamerSignal payload)])"

definition handleLeaveRoom :: "table \<Rightarrow> socketId \<Rightarrow> roomId \<Rightarrow> table \<times> effect list" where
  "handleLeaveRoom t socketId roomId =
    (case rooms_get t roomId of
       None \<Rightarrow> (t, [])
     | Some room \<Rightarrow>
         if streamer room = Some socketId then
           (rooms_delete t roomId,
            map (\<lambda>viewerId. Emit (To viewerId) StreamerDisconnected) (viewers room))
         else if socketId \<in> set (viewers room) then
           (let room' = room\<lparr>viewers := viewers_delete (viewers room) socketId\<rparr>;
                t1 = rooms_set t roomId room';
                out = (if truthy (streamer room')
                       then [Emit (To (the (streamer room'))) (ViewerDisconnected socketId)]
                       else [])
            in if \<not> truthy (streamer room') \<and> viewers room' = []
               then (rooms_delete t1 roomId, out) else (t1, out))
         else (t, []))"

text \<open>
  \<^verbatim>\<open>handleDisconnect(socketId, roomId, room, io)\<close> has the body of
  \<^verbatim>\<open>handleLeaveRoom\<close> without the lookup: the room is handed in by the iteration.
\<close>

definition handleDisconnect :: "table \<Rightarrow> socketId \<Rightarrow> roomId \<Rightarrow> Room \<Rightarrow> table \<times> effect list" where
  "handleDisconnect t socketId roomId room =
    (if streamer room = Some socketId then
       (rooms_delete t roomId,
        map (\<lambda>viewerId. Emit (To viewerId) StreamerDisconnected) (viewers room))
     else if socketId \<in> set (viewers room) then
       (let room' = room\<lparr>viewers := viewers_delete (viewers room) socketId\<rparr>;
            t1 = rooms_set t roomId room';
            out = (if truthy (streamer room')
                   then [Emit (To (the (streamer room'))) (ViewerDisconnected socketId)]
                   else [])
        in if \<not> truthy (streamer room') \<and> viewers room' = []
           then (rooms_delete t1 roomId, out) else (t1, out))
     else (t, []))"

text \<open>
  \<^verbatim>\<open>rooms.forEach((room, roomId) => handleDisconnect(socket.id, roomId, room, io))\<close>.
  \<^verbatim>\<open>Map.prototype.forEach\<close> walks the keys in insertion order and skips a key that
  has been deleted before its turn; it hands the callback the value the key has then.
  The callback adds no key, so the walk is over the keys the table had at the start.
\<close>

fun disconnect_loop :: "socketId \<Rightarrow> roomId list \<Rightarrow> table \<times> effect list \<Rightarrow> table \<times> effect list" where
  "disconnect_loop sid [] st = st"
| "disconnect_loop sid (roomId # ks) (t, out) =
     (case rooms_get t roomId of
        None \<Rightarrow> disconnect_loop sid ks (t, out)
      | Some room \<Rightarrow>
          (case handleDisconnect t sid roomId room of
             (t', out') \<Rightarrow> disconnect_loop sid ks (t', out @ out')))"

definition disconnect :: "table \<Rightarrow> socketId \<Rightarrow> table \<times> effect list" where
  "disconnect t sid = disconnect_loop sid (map fst t) (t, [])"

subsection \<open>The server as a transition system\<close>

datatype request =
    JoinRoom socketId roomId string
  | Signal socketId string payload roomId
  | LeaveRoom socketId roomId
  | Disconnect socketId

fun step :: "table \<Rightarrow> request \<Rightarrow> table \<times> effect list" where
  "step t (JoinRoom sid roomId role) = join_room t sid roomId role"
| "step t (Signal sid to payload room) = (t, signal t sid to payload room)"
| "step t (LeaveRoom sid roomId) = handleLeaveRoom t sid roomId"
| "step t (Disconnect sid) = disconnect t sid"

text \<open>The table after a sequence of requests, starting from the empty table.\<close>

definition run :: "request list \<Rightarrow> table" where
  "run reqs = foldl (\<lambda>t req. fst (step t req)) [] reqs"

subsection \<open>Well-formed tables\<close>

text \<open>
  A list stands for a \<^verbatim>\<open>Map\<close> when no key occurs twice, and for a \<^verbatim>\<open>Set\<close> when
  no element occurs twice.
\<close>

definition wf_table :: "table \<Rightarrow> bool" where
  "wf_table t = (distinct (map fst t) \<and> (\<forall>(k, room) \<in> set t. distinct (viewers room)))"

text \<open>The socket ids that socket.io hands out are never empty.\<close>

definition slots_nonempty :: "table \<Rightarrow> bool" where
  "slots_nonempty t = (\<forall>(k, room) \<in> set t. streamer room \<noteq> Some [])"

fun joins_nonempty :: "request \<Rightarrow> bool" where
  "joins_nonempty (JoinRoom sid roomId role) = (sid \<noteq> [])"
| "joins_nonempty _ = True"

section \<open>Basic facts\<close>

lemma rooms_get_set: "rooms_get (rooms_set t k r) k' = (if k' = k then Some r else rooms_get t k')"
  by (simp add: rooms_get_def rooms_set_def update_conv')

lemma rooms_get_delete: "rooms_get (rooms_delete t k) k' = (if k' = k then None else rooms_get t k')"
  by (simp add: rooms_get_def rooms_delete_def delete_conv')

lemma rooms_set_same: "rooms_get t k = Some r \<Longrightarrow> rooms_set t k r = t"
  by (simp add: rooms_get_def rooms_set_def update_triv)

lemma rooms_has_get: "rooms_has t k = (rooms_get t k \<noteq> None)"
  by (simp add: rooms_has_def rooms_get_def)

lemma rooms_get_key: "rooms_get t k = Some room \<Longrightarrow> k \<in> set (map fst t)"
  by (metis rooms_get_def map_of_eq_None_iff option.distinct(1) set_map)

lemma set_rooms_set: "set (rooms_set t k r) \<subseteq> insert (k, r) (set t)"
  unfolding rooms_set_def by (induction t) auto

lemma set_rooms_delete: "set (rooms_delete t k) \<subseteq> set t"
  by (auto simp: rooms_delete_def AList.delete_eq)

text \<open>
  The lookup after the "create if absent" step of \<^verbatim>\<open>join-room\<close> always finds a room,
  so the non-null assertion \<^verbatim>\<open>rooms.get(roomId)!\<close> is justified.
\<close>

lemma join_room_lookup:
  "rooms_get (if \<not> rooms_has t roomId
              then rooms_set t roomId \<lparr>streamer = None, viewers = []\<rparr> else t) roomId =
   Some (case rooms_get t roomId of None \<Rightarrow> \<lparr>streamer = None, viewers = []\<rparr> | Some r \<Rightarrow> r)"
  by (auto simp: rooms_has_def rooms_get_set) (auto simp: rooms_get_def)

text \<open>The three ways \<^verbatim>\<open>join-room\<close> can go, with the room it works on named.\<close>

lemma join_room_cases:
  obtains t0 room where
    "rooms_get t0 roomId = Some room"
    "t0 = (if \<not> rooms_has t roomId
           then rooms_set t roomId \<lparr>streamer = None, viewers = []\<rparr> else t)"
    "join_room t sid roomId role =
       (if role = ''streamer'' then
          (if truthy (streamer room) then
             (t0, [SocketJoin sid roomId,
                   Emit (Direct sid) (Error ''Room already has a streamer'')])
           else
             (rooms_set t0 roomId (room\<lparr>streamer := Some sid\<rparr>),
              SocketJoin sid roomId # map (\<lambda>viewerId. Emit (To viewerId) StreamerJoined) (viewers room)))
        else
          (rooms_set t0 roomId (room\<lparr>viewers := viewers_add (viewers room) sid\<rparr>),
           SocketJoin sid roomId #
             (if truthy (streamer room)
              then [Emit (To (the (streamer room))) (ViewerJoined sid)] else [])))"
proof -
  define t0 where "t0 = (if \<not> rooms_has t roomId
               then rooms_set t roomId \<lparr>streamer = None, viewers = []\<rparr> else t)"
  define room where "room = the (rooms_get t0 roomId)"
  have "rooms_get t0 roomId = Some room"
    unfolding room_def t0_def by (simp add: join_room_lookup)
  moreover have "join_room t sid roomId role =
       (if role = ''streamer'' then
          (if truthy (streamer room) then
             (t0, [SocketJoin sid roomId,
                   Emit (Direct sid) (Error ''Room already has a streamer'')])
           else
             (rooms_set t0 roomId (room\<lparr>streamer := Some sid\<rparr>),
              SocketJoin sid roomId # map (\<lambda>viewerId. Emit (To viewerId) StreamerJoined) (viewers room)))
        else
          (rooms_set t0 roomId (room\<lparr>viewers := viewers_add (viewers room) sid\<rparr>),
           SocketJoin sid roomId #
             (if truthy (streamer room)
              then [Emit (To (the (streamer room))) (ViewerJoined sid)] else [])))"
    unfolding join_room_def t0_def [symmetric] Let_def room_def [symmetric] by simp
  ultimately show thesis using that t0_def by blast
qed

subsection \<open>One room at a time: what the teardown does\<close>

lemma handleLeaveRoom_eq:
  "handleLeaveRoom t sid k =
     (case rooms_get t k of None \<Rightarrow> (t, []) | Some room \<Rightarrow> handleDisconnect t sid k room)"
  by (simp add: handleLeaveRoom_def handleDisconnect_def split: option.splits)

lemma handleDisconnect_frame:
  "k' \<noteq> k \<Longrightarrow> rooms_get (fst (handleDisconnect t sid k room)) k' = rooms_get t k'"
  by (simp add: handleDisconnect_def Let_def rooms_get_set rooms_get_delete)

lemma handleDisconnect_at:
  "rooms_get t k = Some room \<Longrightarrow>
   rooms_get (fst (handleDisconnect t sid k room)) k =
     (if streamer room = Some sid then None
      else if sid \<in> set (viewers room) then
        (if \<not> truthy (streamer room) \<and> removeAll sid (viewers room) = [] then None
         else Some (room\<lparr>viewers := removeAll sid (viewers room)\<rparr>))
      else Some room)"
  by (simp add: handleDisconnect_def Let_def rooms_get_set rooms_get_delete viewers_delete_def)

lemma handleDisconnect_out:
  "snd (handleDisconnect t sid k room) =
     (if streamer room = Some sid then map (\<lambda>v. Emit (To v) StreamerDisconnected) (viewers room)
      else if sid \<in> set (viewers room) \<and> truthy (streamer room)
        then [Emit (To (the (streamer room))) (ViewerDisconnected sid)]
      else [])"
  by (simp add: handleDisconnect_def Let_def)

subsection \<open>The scan over all rooms\<close>

text \<open>A room whose key is not walked over keeps its entry.\<close>

lemma loop_frame:
  "k \<notin> set ks \<Longrightarrow> rooms_get (fst (disconnect_loop sid ks (t, out))) k = rooms_get t k"
proof (induction ks arbitrary: t out)
  case Nil
  then show ?case by simp
next
  case (Cons a ks)
  then have ne: "k \<noteq> a" and nin: "k \<notin> set ks" by auto
  show ?case
  proof (cases "rooms_get t a")
    case None
    then show ?thesis using Cons.IH [OF nin] by simp
  next
    case (Some room)
    obtain t' out' where hd: "handleDisconnect t sid a room = (t', out')"
      by (cases "handleDisconnect t sid a room")
    have "rooms_get t' k = rooms_get t k"
      using handleDisconnect_frame [OF ne, of t sid room] hd by simp
    then show ?thesis using Some hd Cons.IH [OF nin, of t'] by simp
  qed
qed

text \<open>A room whose key is walked over once ends as its own teardown leaves it.\<close>

lemma loop_at:
  "distinct ks \<Longrightarrow> k \<in> set ks \<Longrightarrow> rooms_get t k = Some room \<Longrightarrow>
   rooms_get (fst (disconnect_loop sid ks (t, out))) k =
   rooms_get (fst (handleDisconnect t sid k room)) k"
proof (induction ks arbitrary: t out)
  case Nil
  then show ?case by simp
next
  case (Cons a ks)
  show ?case
  proof (cases "a = k")
    case True
    then have nin: "k \<notin> set ks" using Cons.prems(1) by simp
    obtain t' out' where hd: "handleDisconnect t sid k room = (t', out')"
      by (cases "handleDisconnect t sid k room")
    show ?thesis using True Cons.prems(3) hd loop_frame [OF nin, of sid t'] by simp
  next
    case False
    then have kin: "k \<in> set ks" and dk: "distinct ks" using Cons.prems by auto
    show ?thesis
    proof (cases "rooms_get t a")
      case None
      then show ?thesis using Cons.IH [OF dk kin Cons.prems(3)] by simp
    next
      case (Some ra)
      obtain t' out' where hd: "handleDisconnect t sid a ra = (t', out')"
        by (cases "handleDisconnect t sid a ra")
      have g: "rooms_get t' k = Some room"
        using handleDisconnect_frame [of k a t sid ra] False hd Cons.prems(3) by simp
      have "rooms_get (fst (handleDisconnect t' sid k room)) k =
            rooms_get (fst (handleDisconnect t sid k room)) k"
        by (simp only: handleDisconnect_at [OF g] handleDisconnect_at [OF Cons.prems(3)])
      then show ?thesis using Some hd Cons.IH [OF dk kin g, of "out @ out'"] by simp
    qed
  qed
qed

lemma loop_out_prefix:
  "\<exists>post. snd (disconnect_loop sid ks (t, out)) = out @ post"
proof (induction ks arbitrary: t out)
  case Nil
  then show ?case by simp
next
  case (Cons a ks)
  show ?case
  proof (cases "rooms_get t a")
    case None
    then show ?thesis using Cons.IH [of t out] by simp
  next
    case (Some ra)
    obtain t' out' where hd: "handleDisconnect t sid a ra = (t', out')"
      by (cases "handleDisconnect t sid a ra")
    from Cons.IH [of t' "out @ out'"] obtain post
      where "snd (disconnect_loop sid ks (t', out @ out')) = (out @ out') @ post" by blast
    then show ?thesis using Some hd by simp
  qed
qed

lemma loop_out_at:
  "distinct ks \<Longrightarrow> k \<in> set ks \<Longrightarrow> rooms_get t k = Some room \<Longrightarrow>
   \<exists>pre post. snd (disconnect_loop sid ks (t, out)) =
     pre @ snd (handleDisconnect t sid k room) @ post"
proof (induction ks arbitrary: t out)
  case Nil
  then show ?case by simp
next
  case (Cons a ks)
  show ?case
  proof (cases "a = k")
    case True
    obtain t' out' where hd: "handleDisconnect t sid k room = (t', out')"
      by (cases "handleDisconnect t sid k room")
    from loop_out_prefix [of sid ks t' "out @ out'"] obtain post
      where "snd (disconnect_loop sid ks (t', out @ out')) = (out @ out') @ post" by blast
    then have "snd (disconnect_loop sid (a # ks) (t, out)) = out @ out' @ post"
      using True Cons.prems(3) hd by simp
    then show ?thesis using hd by (metis snd_conv)
  next
    case False
    then have kin: "k \<in> set ks" and dk: "distinct ks" using Cons.prems by auto
    show ?thesis
    proof (cases "rooms_get t a")
      case None
      then show ?thesis using Cons.IH [OF dk kin Cons.prems(3)] by simp
    next
      case (Some ra)
      obtain t' out' where hd: "handleDisconnect t sid a ra = (t', out')"
        by (cases "handleDisconnect t sid a ra")
      have g: "rooms_get t' k = Some room"
        using handleDisconnect_frame [of k a t sid ra] False hd Cons.prems(3) by simp
      have "snd (handleDisconnect t' sid k room) = snd (handleDisconnect t sid k room)"
        by (simp only: handleDisconnect_out)
      then show ?thesis using Some hd Cons.IH [OF dk kin g, of "out @ out'"] by simp
    qed
  qed
qed


lemma disconnect_at:
  assumes "distinct (map fst t)" and "rooms_get t k = Some room"
  shows "rooms_get (fst (disconnect t sid)) k = rooms_get (fst (handleDisconnect t sid k room)) k"
  unfolding disconnect_def
  using loop_at [OF assms(1) rooms_get_key [OF assms(2)] assms(2)] by blast

lemma disconnect_out_at:
  assumes "distinct (map fst t)" and "rooms_get t k = Some room"
  shows "\<exists>pre post. snd (disconnect t sid) = pre @ snd (handleDisconnect t sid k room) @ post"
  unfolding disconnect_def
  using loop_out_at [OF assms(1) rooms_get_key [OF assms(2)] assms(2)] by blast


subsection \<open>Invariants of the table\<close>

lemma all_rooms_set:
  "(\<forall>x \<in> set t. Q (snd x)) \<Longrightarrow> Q r \<Longrightarrow> \<forall>x \<in> set (rooms_set t k0 r). Q (snd x)"
  using set_rooms_set [of t k0 r] by auto

lemma all_rooms_delete:
  "(\<forall>x \<in> set t. Q (snd x)) \<Longrightarrow> \<forall>x \<in> set (rooms_delete t k0). Q (snd x)"
  using set_rooms_delete [of t k0] by auto

lemma all_lookup:
  "(\<forall>x \<in> set t. Q (snd x)) \<Longrightarrow> rooms_get t k = Some room \<Longrightarrow> Q room"
  unfolding rooms_get_def by (fastforce dest: map_of_SomeD)

lemma all_join_room:
  assumes "\<forall>x \<in> set t. Q (snd x)"
    and "Q \<lparr>streamer = None, viewers = []\<rparr>"
    and "\<And>room. Q room \<Longrightarrow> Q (room\<lparr>streamer := Some sid\<rparr>)"
    and "\<And>room. Q room \<Longrightarrow> Q (room\<lparr>viewers := viewers_add (viewers room) sid\<rparr>)"
  shows "\<forall>x \<in> set (fst (join_room t sid roomId role)). Q (snd x)"
proof -
  obtain t0 room where g0: "rooms_get t0 roomId = Some room"
    and t0: "t0 = (if \<not> rooms_has t roomId
           then rooms_set t roomId \<lparr>streamer = None, viewers = []\<rparr> else t)"
    and j: "join_room t sid roomId role =
       (if role = ''streamer'' then
          (if truthy (streamer room) then
             (t0, [SocketJoin sid roomId,
                   Emit (Direct sid) (Error ''Room already has a streamer'')])
           else
             (rooms_set t0 roomId (room\<lparr>streamer := Some sid\<rparr>),
              SocketJoin sid roomId # map (\<lambda>viewerId. Emit (To viewerId) StreamerJoined) (viewers room)))
        else
          (rooms_set t0 roomId (room\<lparr>viewers := viewers_add (viewers room) sid\<rparr>),
           SocketJoin sid roomId #
             (if truthy (streamer room)
              then [Emit (To (the (streamer room))) (ViewerJoined sid)] else [])))"
    by (rule join_room_cases)
  have a0: "\<forall>x \<in> set t0. Q (snd x)"
    unfolding t0 using assms(1) all_rooms_set [OF assms(1,2)] by simp
  have q: "Q room" using all_lookup [OF a0 g0] .
  have "\<forall>x \<in> set (rooms_set t0 roomId (room\<lparr>streamer := Some sid\<rparr>)). Q (snd x)"
    using a0 assms(3) [OF q] by (rule all_rooms_set)
  moreover have "\<forall>x \<in> set (rooms_set t0 roomId
      (room\<lparr>viewers := viewers_add (viewers room) sid\<rparr>)). Q (snd x)"
    using a0 assms(4) [OF q] by (rule all_rooms_set)
  ultimately show ?thesis
    unfolding j using a0 by simp
qed

lemma all_handleDisconnect:
  assumes "\<forall>x \<in> set t. Q (snd x)" and "rooms_get t k = Some room"
    and "\<And>room. Q room \<Longrightarrow> Q (room\<lparr>viewers := viewers_delete (viewers room) sid\<rparr>)"
  shows "\<forall>x \<in> set (fst (handleDisconnect t sid k room)). Q (snd x)"
proof -
  have q: "Q room" using all_lookup [OF assms(1,2)] .
  define room' where "room' = room\<lparr>viewers := viewers_delete (viewers room) sid\<rparr>"
  have a1: "\<forall>x \<in> set (rooms_set t k room'). Q (snd x)"
    using assms(1) assms(3) [OF q] unfolding room'_def by (rule all_rooms_set)
  have a2: "\<forall>x \<in> set (rooms_delete (rooms_set t k room') k). Q (snd x)"
    using a1 by (rule all_rooms_delete)
  have a3: "\<forall>x \<in> set (rooms_delete t k). Q (snd x)"
    using assms(1) by (rule all_rooms_delete)
  show ?thesis
    unfolding handleDisconnect_def Let_def room'_def [symmetric]
    using assms(1) a1 a2 a3 by simp
qed

lemma all_disconnect_loop:
  assumes "\<And>room. Q room \<Longrightarrow> Q (room\<lparr>viewers := viewers_delete (viewers room) sid\<rparr>)"
  shows "(\<forall>x \<in> set t. Q (snd x)) \<Longrightarrow>
         \<forall>x \<in> set (fst (disconnect_loop sid ks (t, out))). Q (snd x)"
proof (induction ks arbitrary: t out)
  case Nil
  then show ?case by simp
next
  case (Cons a ks)
  show ?case
  proof (cases "rooms_get t a")
    case None
    then show ?thesis using Cons by simp
  next
    case (Some ra)
    obtain t' out' where hd: "handleDisconnect t sid a ra = (t', out')"
      by (cases "handleDisconnect t sid a ra")
    have "\<forall>x \<in> set t'. Q (snd x)"
      using all_handleDisconnect [of t Q a ra sid, OF Cons.prems Some assms] hd by simp
    then show ?thesis using Some hd Cons.IH [of t'] by simp
  qed
qed

lemma all_step:
  assumes "\<forall>x \<in> set t. Q (snd x)"
    and "Q \<lparr>streamer = None, viewers = []\<rparr>"
    and "\<And>room sid roomId role. req = JoinRoom sid roomId role \<Longrightarrow> Q room \<Longrightarrow> Q (room\<lparr>streamer := Some sid\<rparr>)"
    and "\<And>room sid. Q room \<Longrightarrow> Q (room\<lparr>viewers := viewers_add (viewers room) sid\<rparr>)"
    and "\<And>room sid. Q room \<Longrightarrow> Q (room\<lparr>viewers := viewers_delete (viewers room) sid\<rparr>)"
  shows "\<forall>x \<in> set (fst (step t req)). Q (snd x)"
proof (cases req)
  case (JoinRoom sid roomId role)
  then show ?thesis using all_join_room [of t Q sid roomId role] assms(1-4) by simp
next
  case (Signal sid to payload room)
  then show ?thesis using assms(1) by simp
next
  case (LeaveRoom sid roomId)
  then show ?thesis
    using assms(1) all_handleDisconnect [of t Q roomId _ sid] assms(5)
    by (simp add: handleLeaveRoom_eq split: option.splits)
next
  case (Disconnect sid)
  then show ?thesis
    using all_disconnect_loop [of Q sid t "map fst t" "[]"] assms(1,5)
    by (simp add: disconnect_def)
qed

lemma keys_handleDisconnect:
  "distinct (map fst t) \<Longrightarrow> distinct (map fst (fst (handleDisconnect t sid k room)))"
  by (simp add: handleDisconnect_def Let_def rooms_set_def rooms_delete_def
      distinct_update distinct_delete)

lemma keys_disconnect_loop:
  "distinct (map fst t) \<Longrightarrow> distinct (map fst (fst (disconnect_loop sid ks (t, out))))"
proof (induction ks arbitrary: t out)
  case Nil
  then show ?case by simp
next
  case (Cons a ks)
  show ?case
  proof (cases "rooms_get t a")
    case None
    then show ?thesis using Cons by simp
  next
    case (Some ra)
    obtain t' out' where hd: "handleDisconnect t sid a ra = (t', out')"
      by (cases "handleDisconnect t sid a ra")
    have "distinct (map fst t')" using keys_handleDisconnect [OF Cons.prems, of sid a ra] hd by simp
    then show ?thesis using Some hd Cons.IH [of t'] by simp
  qed
qed

lemma keys_step: "distinct (map fst t) \<Longrightarrow> distinct (map fst (fst (step t req)))"
proof (cases req)
  case (JoinRoom sid roomId role)
  assume "distinct (map fst t)"
  then show ?thesis using JoinRoom
    by (simp add: join_room_def Let_def rooms_set_def distinct_update)
next
  case (Signal sid to payload room)
  assume "distinct (map fst t)"
  then show ?thesis using Signal by simp
next
  case (LeaveRoom sid roomId)
  assume "distinct (map fst t)"
  then show ?thesis using LeaveRoom
    by (simp add: handleLeaveRoom_eq keys_handleDisconnect split: option.splits)
next
  case (Disconnect sid)
  assume "distinct (map fst t)"
  then show ?thesis using Disconnect by (simp add: disconnect_def keys_disconnect_loop)
qed

lemma wf_step: "wf_table t \<Longrightarrow> wf_table (fst (step t req))"
  unfolding wf_table_def
  using keys_step [of t req] all_step [of t "\<lambda>room. distinct (viewers room)" req]
  by (simp add: viewers_add_def viewers_delete_def distinct_removeAll case_prod_beta)

lemma wf_foldl: "wf_table t \<Longrightarrow> wf_table (foldl (\<lambda>t req. fst (step t req)) t reqs)"
  by (induction reqs arbitrary: t) (simp_all add: wf_step)

lemma slots_step:
  assumes "slots_nonempty t" and "joins_nonempty req"
  shows "slots_nonempty (fst (step t req))"
proof -
  have "\<forall>x \<in> set (fst (step t req)). streamer (snd x) \<noteq> Some []"
  proof (rule all_step)
    show "\<forall>x \<in> set t. streamer (snd x) \<noteq> Some []"
      using assms(1) by (simp add: slots_nonempty_def case_prod_beta)
  next
    fix room :: Room and sid roomId role
    assume "req = JoinRoom sid roomId role"
    then show "streamer (room\<lparr>streamer := Some sid\<rparr>) \<noteq> Some []"
      using assms(2) by simp
  qed simp_all
  then show ?thesis by (simp add: slots_nonempty_def case_prod_beta)
qed

text \<open>
  Since socket ids are never empty, no streamer slot ever holds the empty string: in a
  table the server can reach, a slot is occupied exactly when the handlers' truthiness
  test says so.
\<close>

lemma slots_foldl:
  "slots_nonempty t \<Longrightarrow> list_all joins_nonempty reqs \<Longrightarrow>
   slots_nonempty (foldl (\<lambda>t req. fst (step t req)) t reqs)"
  by (induction reqs arbitrary: t) (simp_all add: slots_step)

lemma run_slots_nonempty: "list_all joins_nonempty reqs \<Longrightarrow> slots_nonempty (run reqs)"
  unfolding run_def by (rule slots_foldl) (simp_all add: slots_nonempty_def)

subsection \<open>The scan, exactly\<close>







section \<open>The claims\<close>

text \<open>
  Claim C1. The streamer slot of a room holds at most one connection id (the field is a
  single optional string), and a join as streamer by \<open>C\<close> on a room whose slot is occupied
  by another connection \<open>s\<close> is rejected: the only event emitted is an error sent to the
  calling socket \<open>C\<close>, the table is returned as it was, and \<open>s\<close> is still the streamer.
\<close>

theorem join_streamer_conflict_rejected:
  assumes "rooms_get t roomId = Some room" and "streamer room = Some s"
    and "s \<noteq> []" and "s \<noteq> C"
  shows "card (set_option (streamer room)) \<le> 1
       \<and> join_room t C roomId ''streamer'' =
           (t, [SocketJoin C roomId, Emit (Direct C) (Error ''Room already has a streamer'')])
       \<and> map_option streamer (rooms_get (fst (join_room t C roomId ''streamer'')) roomId) =
           Some (Some s)"
proof -
  have has: "rooms_has t roomId" using assms(1) by (simp add: rooms_has_get)
  have tr: "truthy (streamer room)" using assms(2,3) by (simp add: truthy_def)
  have j: "join_room t C roomId ''streamer'' =
           (t, [SocketJoin C roomId, Emit (Direct C) (Error ''Room already has a streamer'')])"
    using has tr assms(1) by (simp add: join_room_def Let_def)
  show ?thesis using j assms(1,2) by simp
qed

theorem join_streamer_conflict_rejected_witness:
  "rooms_get [(''ROOM9'', \<lparr>streamer = Some ''S'', viewers = [''V'']\<rparr>)] ''ROOM9'' =
     Some \<lparr>streamer = Some ''S'', viewers = [''V'']\<rparr>
   \<and> ''S'' \<noteq> [] \<and> ''S'' \<noteq> ''T''
   \<and> join_room [(''ROOM9'', \<lparr>streamer = Some ''S'', viewers = [''V'']\<rparr>)] ''T'' ''ROOM9'' ''streamer'' =
       ([(''ROOM9'', \<lparr>streamer = Some ''S'', viewers = [''V'']\<rparr>)],
        [SocketJoin ''T'' ''ROOM9'', Emit (Direct ''T'') (Error ''Room already has a streamer'')])"
  using join_streamer_conflict_rejected
    [of "[(''ROOM9'', \<lparr>streamer = Some ''S'', viewers = [''V'']\<rparr>)]" "''ROOM9''"
        "\<lparr>streamer = Some ''S'', viewers = [''V'']\<rparr>" "''S''" "''T''"]
  by (simp add: rooms_get_def)

text \<open>
  Claim C2. When \<open>C\<close> is the streamer of room \<open>r\<close>, both \<^verbatim>\<open>leave-room\<close> and
  \<^verbatim>\<open>disconnect\<close> emit \<^verbatim>\<open>streamer-disconnected\<close> to every member of the viewer set, in
  the set's order, and delete the entry of \<open>r\<close> (and the slot with it) whatever the viewer
  set holds. The scan of \<^verbatim>\<open>disconnect\<close> may emit for other rooms before and after.
\<close>

theorem streamer_departure_deletes_room:
  assumes "distinct (map fst t)" and "rooms_get t r = Some room" and "streamer room = Some C"
  shows "handleLeaveRoom t C r =
           (rooms_delete t r, map (\<lambda>v. Emit (To v) StreamerDisconnected) (viewers room))
       \<and> rooms_get (rooms_delete t r) r = None
       \<and> rooms_get (fst (disconnect t C)) r = None
       \<and> (\<exists>pre post. snd (disconnect t C) =
             pre @ map (\<lambda>v. Emit (To v) StreamerDisconnected) (viewers room) @ post)"
proof -
  have l: "handleLeaveRoom t C r =
           (rooms_delete t r, map (\<lambda>v. Emit (To v) StreamerDisconnected) (viewers room))"
    using assms(2,3) by (simp add: handleLeaveRoom_def)
  have d: "rooms_get (fst (disconnect t C)) r = None"
    using disconnect_at [OF assms(1,2), of C] assms(3)
    by (simp add: handleDisconnect_at [OF assms(2)])
  have o: "\<exists>pre post. snd (disconnect t C) =
             pre @ map (\<lambda>v. Emit (To v) StreamerDisconnected) (viewers room) @ post"
    using disconnect_out_at [OF assms(1,2), of C] assms(3)
    by (simp add: handleDisconnect_out)
  show ?thesis using l d o by (simp add: rooms_get_delete)
qed

theorem streamer_departure_deletes_room_witness:
  "distinct (map fst [(''R1'', \<lparr>streamer = Some ''S'', viewers = [''V'', ''W'']\<rparr>)])
   \<and> rooms_get [(''R1'', \<lparr>streamer = Some ''S'', viewers = [''V'', ''W'']\<rparr>)] ''R1'' =
       Some \<lparr>streamer = Some ''S'', viewers = [''V'', ''W'']\<rparr>
   \<and> handleLeaveRoom [(''R1'', \<lparr>streamer = Some ''S'', viewers = [''V'', ''W'']\<rparr>)] ''S'' ''R1'' =
       ([], [Emit (To ''V'') StreamerDisconnected, Emit (To ''W'') StreamerDisconnected])
   \<and> rooms_get (fst (disconnect [(''R1'', \<lparr>streamer = Some ''S'', viewers = [''V'', ''W'']\<rparr>)] ''S''))
        ''R1'' = None"
  using streamer_departure_deletes_room
    [of "[(''R1'', \<lparr>streamer = Some ''S'', viewers = [''V'', ''W'']\<rparr>)]" "''R1''"
        "\<lparr>streamer = Some ''S'', viewers = [''V'', ''W'']\<rparr>" "''S''"]
  by (simp add: rooms_get_def rooms_delete_def)

text \<open>
  Claim C3 says that after the streamer has left, the entry of the room is absent if and
  only if its viewer set is empty. The streamer branch deletes the entry without looking
  at the viewer set: with viewer \<open>V\<close> still in room \<open>R1\<close>, the entry is gone after the
  streamer \<open>S\<close> leaves or disconnects.
\<close>

theorem streamer_departure_iff_counterexample:
  "\<not> (rooms_get (fst (handleLeaveRoom
          [(''R1'', \<lparr>streamer = Some ''S'', viewers = [''V'']\<rparr>)] ''S'' ''R1'')) ''R1'' = None
       \<longleftrightarrow> viewers \<lparr>streamer = Some ''S'', viewers = [''V'']\<rparr> = [])
   \<and> \<not> (rooms_get (fst (disconnect
          [(''R1'', \<lparr>streamer = Some ''S'', viewers = [''V'']\<rparr>)] ''S'')) ''R1'' = None
       \<longleftrightarrow> viewers \<lparr>streamer = Some ''S'', viewers = [''V'']\<rparr> = [])"
  by (simp add: rooms_get_def handleLeaveRoom_def disconnect_def handleDisconnect_def
      rooms_delete_def)

text \<open>
  Claim C3, amended: after the streamer of a room has left, by \<^verbatim>\<open>leave-room\<close> or by
  \<^verbatim>\<open>disconnect\<close>, the entry of the room is absent from the table, whether its viewer set
  is empty or not.
\<close>

theorem streamer_departure_entry_absent:
  assumes "distinct (map fst t)" and "rooms_get t r = Some room" and "streamer room = Some C"
  shows "rooms_get (fst (handleLeaveRoom t C r)) r = None
       \<and> rooms_get (fst (disconnect t C)) r = None"
proof -
  have "rooms_get (fst (handleLeaveRoom t C r)) r = None"
    using assms(2,3) by (simp add: handleLeaveRoom_eq handleDisconnect_at)
  moreover have "rooms_get (fst (disconnect t C)) r = None"
    using disconnect_at [OF assms(1,2), of C] assms(3)
    by (simp add: handleDisconnect_at [OF assms(2)])
  ultimately show ?thesis by simp
qed

theorem streamer_departure_entry_absent_witness:
  "distinct (map fst [(''R1'', \<lparr>streamer = Some ''S'', viewers = [''V'']\<rparr>),
                      (''R2'', \<lparr>streamer = None, viewers = [''S'']\<rparr>)])
   \<and> rooms_get [(''R1'', \<lparr>streamer = Some ''S'', viewers = [''V'']\<rparr>),
                 (''R2'', \<lparr>streamer = None, viewers = [''S'']\<rparr>)] ''R1'' =
       Some \<lparr>streamer = Some ''S'', viewers = [''V'']\<rparr>
   \<and> rooms_get (fst (handleLeaveRoom [(''R1'', \<lparr>streamer = Some ''S'', viewers = [''V'']\<rparr>),
                 (''R2'', \<lparr>streamer = None, viewers = [''S'']\<rparr>)] ''S'' ''R1'')) ''R1'' = None
   \<and> rooms_get (fst (disconnect [(''R1'', \<lparr>streamer = Some ''S'', viewers = [''V'']\<rparr>),
                 (''R2'', \<lparr>streamer = None, viewers = [''S'']\<rparr>)] ''S'')) ''R1'' = None"
  using streamer_departure_entry_absent
    [of "[(''R1'', \<lparr>streamer = Some ''S'', viewers = [''V'']\<rparr>),
          (''R2'', \<lparr>streamer = None, viewers = [''S'']\<rparr>)]" "''R1''"
        "\<lparr>streamer = Some ''S'', viewers = [''V'']\<rparr>" "''S''"]
  by (simp add: rooms_get_def)

text \<open>
  Claim C4 says that a second join with the same role is a no-op with no error and no
  repeated notification. The guard of the streamer branch does not compare the slot with
  the caller, so the streamer who joins again gets the error; and the viewer branch emits
  \<^verbatim>\<open>viewer-joined\<close> whenever the room has a streamer, so the streamer is notified of the
  same viewer a second time.
\<close>

theorem repeated_join_counterexample:
  "snd (join_room (fst (join_room [] ''S'' ''R'' ''streamer'')) ''S'' ''R'' ''streamer'') =
     [SocketJoin ''S'' ''R'', Emit (Direct ''S'') (Error ''Room already has a streamer'')]
   \<and> snd (join_room [(''R'', \<lparr>streamer = Some ''S'', viewers = []\<rparr>)] ''V'' ''R'' ''viewer'') =
     [SocketJoin ''V'' ''R'', Emit (To ''S'') (ViewerJoined ''V'')]
   \<and> snd (join_room (fst (join_room [(''R'', \<lparr>streamer = Some ''S'', viewers = []\<rparr>)]
                              ''V'' ''R'' ''viewer'')) ''V'' ''R'' ''viewer'') =
     [SocketJoin ''V'' ''R'', Emit (To ''S'') (ViewerJoined ''V'')]"
  by (simp add: join_room_def rooms_has_def rooms_get_def rooms_set_def viewers_add_def
      truthy_def)

text \<open>
  Claim C4, amended: a second join by the same connection with the same role leaves the
  table as the first join left it, so the viewer set gets no second entry. Joining again
  as streamer emits one event, the error to the caller, and nothing to anyone else.
  Joining again as viewer emits \<^verbatim>\<open>viewer-joined\<close> to the streamer once more when the
  room has one, and nothing otherwise.
\<close>

theorem repeated_join_same_table:
  assumes "join_room t C r role = (t1, out1)"
  shows "fst (join_room t1 C r role) = t1
       \<and> (role = ''streamer'' \<and> C \<noteq> [] \<longrightarrow>
            snd (join_room t1 C r role) =
              [SocketJoin C r, Emit (Direct C) (Error ''Room already has a streamer'')])
       \<and> (role \<noteq> ''streamer'' \<longrightarrow>
            (\<exists>room. rooms_get t1 r = Some room \<and> C \<in> set (viewers room) \<and>
               snd (join_room t1 C r role) =
                 SocketJoin C r #
                   (if truthy (streamer room)
                    then [Emit (To (the (streamer room))) (ViewerJoined C)] else [])))"
proof -
  obtain t0 room where g0: "rooms_get t0 r = Some room"
    and first: "join_room t C r role =
       (if role = ''streamer'' then
          (if truthy (streamer room) then
             (t0, [SocketJoin C r,
                   Emit (Direct C) (Error ''Room already has a streamer'')])
           else
             (rooms_set t0 r (room\<lparr>streamer := Some C\<rparr>),
              SocketJoin C r # map (\<lambda>viewerId. Emit (To viewerId) StreamerJoined) (viewers room)))
        else
          (rooms_set t0 r (room\<lparr>viewers := viewers_add (viewers room) C\<rparr>),
           SocketJoin C r #
             (if truthy (streamer room)
              then [Emit (To (the (streamer room))) (ViewerJoined C)] else [])))"
    by (rule join_room_cases)
  show ?thesis
  proof (cases "role = ''streamer''")
    case True
    show ?thesis
    proof (cases "truthy (streamer room)")
      case occupied: True
      then have "t1 = t0" using first assms True by simp
      then show ?thesis using True occupied g0
        by (simp add: join_room_def Let_def rooms_has_get)
    next
      case free: False
      then have t1: "t1 = rooms_set t0 r (room\<lparr>streamer := Some C\<rparr>)"
        using first assms True by simp
      have g1: "rooms_get t1 r = Some (room\<lparr>streamer := Some C\<rparr>)"
        by (simp add: t1 rooms_get_set)
      have "rooms_set t1 r (room\<lparr>streamer := Some C\<rparr>) = t1"
        using g1 by (rule rooms_set_same)
      then show ?thesis using True g1
        by (cases "C = []") (simp_all add: join_room_def Let_def rooms_has_get truthy_def)
    qed
  next
    case False
    define room' where "room' = room\<lparr>viewers := viewers_add (viewers room) C\<rparr>"
    have t1: "t1 = rooms_set t0 r room'"
      using first assms False by (simp add: room'_def)
    have g1: "rooms_get t1 r = Some room'"
      by (simp add: t1 rooms_get_set)
    have mem: "C \<in> set (viewers room')" by (simp add: room'_def viewers_add_def)
    then have "room'\<lparr>viewers := viewers_add (viewers room') C\<rparr> = room'"
      by (simp add: viewers_add_def)
    moreover have "rooms_set t1 r room' = t1" using g1 by (rule rooms_set_same)
    ultimately show ?thesis using False g1 mem
      by (simp add: join_room_def Let_def rooms_has_get)
  qed
qed

theorem repeated_join_same_table_witness:
  "join_room [] ''S'' ''R'' ''streamer'' =
     ([(''R'', \<lparr>streamer = Some ''S'', viewers = []\<rparr>)], [SocketJoin ''S'' ''R''])
   \<and> join_room [(''R'', \<lparr>streamer = Some ''S'', viewers = []\<rparr>)] ''S'' ''R'' ''streamer'' =
     ([(''R'', \<lparr>streamer = Some ''S'', viewers = []\<rparr>)],
      [SocketJoin ''S'' ''R'', Emit (Direct ''S'') (Error ''Room already has a streamer'')])
   \<and> join_room [(''R'', \<lparr>streamer = Some ''S'', viewers = []\<rparr>)] ''V'' ''R'' ''viewer'' =
     ([(''R'', \<lparr>streamer = Some ''S'', viewers = [''V'']\<rparr>)],
      [SocketJoin ''V'' ''R'', Emit (To ''S'') (ViewerJoined ''V'')])
   \<and> fst (join_room [(''R'', \<lparr>streamer = Some ''S'', viewers = [''V'']\<rparr>)] ''V'' ''R'' ''viewer'') =
     [(''R'', \<lparr>streamer = Some ''S'', viewers = [''V'']\<rparr>)]"
proof -
  have a: "join_room [] ''S'' ''R'' ''streamer'' =
     ([(''R'', \<lparr>streamer = Some ''S'', viewers = []\<rparr>)], [SocketJoin ''S'' ''R''])"
    by (simp add: join_room_def rooms_has_def rooms_get_def rooms_set_def truthy_def)
  have b: "join_room [(''R'', \<lparr>streamer = Some ''S'', viewers = []\<rparr>)] ''V'' ''R'' ''viewer'' =
     ([(''R'', \<lparr>streamer = Some ''S'', viewers = [''V'']\<rparr>)],
      [SocketJoin ''V'' ''R'', Emit (To ''S'') (ViewerJoined ''V'')])"
    by (simp add: join_room_def rooms_has_def rooms_get_def rooms_set_def viewers_add_def
        truthy_def)
  show ?thesis
    using a b repeated_join_same_table [OF a] repeated_join_same_table [OF b]
    by (simp add: prod_eq_iff)
qed

text \<open>
  Claim C5 says that a connection holds at most one role in at most one room.
  \<^verbatim>\<open>join-room\<close> looks at the one room it is given and never at the caller's other
  memberships: the same connection can be a viewer of two rooms, the streamer and a viewer
  of one room, and the streamer of two rooms.
\<close>

theorem dual_membership_counterexample:
  "run [JoinRoom ''C'' ''A'' ''viewer'', JoinRoom ''C'' ''B'' ''viewer''] =
     [(''A'', \<lparr>streamer = None, viewers = [''C'']\<rparr>),
      (''B'', \<lparr>streamer = None, viewers = [''C'']\<rparr>)]
   \<and> run [JoinRoom ''C'' ''A'' ''streamer'', JoinRoom ''C'' ''A'' ''viewer''] =
     [(''A'', \<lparr>streamer = Some ''C'', viewers = [''C'']\<rparr>)]
   \<and> run [JoinRoom ''C'' ''A'' ''streamer'', JoinRoom ''C'' ''B'' ''streamer''] =
     [(''A'', \<lparr>streamer = Some ''C'', viewers = []\<rparr>),
      (''B'', \<lparr>streamer = Some ''C'', viewers = []\<rparr>)]"
  by (simp add: run_def join_room_def rooms_has_def rooms_get_def rooms_set_def
      viewers_add_def truthy_def)

text \<open>
  Claim C5, amended: in every state reachable by any sequence of join, signal, leave and
  disconnect requests, each room code has one table entry and each connection identifier
  occurs at most once in the viewer set of any one room (and a room has one streamer slot).
  The same connection can be in several rooms, and in both roles.
\<close>

theorem run_table_wellformed: "wf_table (run reqs)"
  unfolding run_def by (rule wf_foldl) (simp add: wf_table_def)

theorem run_table_wellformed_witness:
  "run [JoinRoom ''S'' ''R'' ''streamer'', JoinRoom ''V'' ''R'' ''viewer'',
        JoinRoom ''V'' ''R'' ''viewer'', Signal ''V'' ''streamer'' ''offer'' ''R'',
        JoinRoom ''W'' ''R'' ''viewer'', JoinRoom ''V'' ''Q'' ''viewer'',
        LeaveRoom ''W'' ''R'', Disconnect ''Z''] =
     [(''R'', \<lparr>streamer = Some ''S'', viewers = [''V'']\<rparr>),
      (''Q'', \<lparr>streamer = None, viewers = [''V'']\<rparr>)]
   \<and> wf_table (run [JoinRoom ''S'' ''R'' ''streamer'', JoinRoom ''V'' ''R'' ''viewer'',
        JoinRoom ''V'' ''R'' ''viewer'', Signal ''V'' ''streamer'' ''offer'' ''R'',
        JoinRoom ''W'' ''R'' ''viewer'', JoinRoom ''V'' ''Q'' ''viewer'',
        LeaveRoom ''W'' ''R'', Disconnect ''Z''])"
proof -
  have "run [JoinRoom ''S'' ''R'' ''streamer'', JoinRoom ''V'' ''R'' ''viewer'',
        JoinRoom ''V'' ''R'' ''viewer'', Signal ''V'' ''streamer'' ''offer'' ''R'',
        JoinRoom ''W'' ''R'' ''viewer'', JoinRoom ''V'' ''Q'' ''viewer'',
        LeaveRoom ''W'' ''R'', Disconnect ''Z''] =
     [(''R'', \<lparr>streamer = Some ''S'', viewers = [''V'']\<rparr>),
      (''Q'', \<lparr>streamer = None, viewers = [''V'']\<rparr>)]"
    by (simp add: run_def join_room_def handleLeaveRoom_def disconnect_def handleDisconnect_def
        rooms_has_def rooms_get_def rooms_set_def rooms_delete_def viewers_add_def
        viewers_delete_def truthy_def)
  then show ?thesis
    using run_table_wellformed
      [of "[JoinRoom ''S'' ''R'' ''streamer'', JoinRoom ''V'' ''R'' ''viewer'',
            JoinRoom ''V'' ''R'' ''viewer'', Signal ''V'' ''streamer'' ''offer'' ''R'',
            JoinRoom ''W'' ''R'' ''viewer'', JoinRoom ''V'' ''Q'' ''viewer'',
            LeaveRoom ''W'' ''R'', Disconnect ''Z'']"]
    by simp
qed




text \<open>
  Claim C7. A signal addressed to \<^verbatim>\<open>"streamer"\<close> in a room that has no table entry, or
  whose streamer slot is empty, emits nothing at all (no delivery, no error to the sender)
  and leaves the table as it was.
\<close>

theorem signal_to_absent_streamer_dropped:
  assumes "rooms_get t room = None \<or> map_option streamer (rooms_get t room) = Some None"
  shows "step t (Signal sender ''streamer'' payload room) = (t, [])"
  using assms by (auto simp: signal_def truthy_def split: option.splits)

theorem signal_to_absent_streamer_dropped_witness:
  "rooms_get [(''ABC1'', \<lparr>streamer = None, viewers = [''V'']\<rparr>)] ''NONE'' = None
   \<and> step [(''ABC1'', \<lparr>streamer = None, viewers = [''V'']\<rparr>)]
        (Signal ''V'' ''streamer'' ''offer'' ''NONE'') =
       ([(''ABC1'', \<lparr>streamer = None, viewers = [''V'']\<rparr>)], [])
   \<and> map_option streamer (rooms_get [(''ABC1'', \<lparr>streamer = None, viewers = [''V'']\<rparr>)] ''ABC1'') =
       Some None
   \<and> step [(''ABC1'', \<lparr>streamer = None, viewers = [''V'']\<rparr>)]
        (Signal ''V'' ''streamer'' ''offer'' ''ABC1'') =
       ([(''ABC1'', \<lparr>streamer = None, viewers = [''V'']\<rparr>)], [])"
  using signal_to_absent_streamer_dropped
    [of "[(''ABC1'', \<lparr>streamer = None, viewers = [''V'']\<rparr>)]" "''NONE''" "''V''" "''offer''"]
    signal_to_absent_streamer_dropped
    [of "[(''ABC1'', \<lparr>streamer = None, viewers = [''V'']\<rparr>)]" "''ABC1''" "''V''" "''offer''"]
  by (simp add: rooms_get_def)

text \<open>
  Claim C8 says that a join with an empty room code, or with a role that is neither
  \<^verbatim>\<open>streamer\<close> nor \<^verbatim>\<open>viewer\<close>, is rejected before the table is touched and the
  rejection is reported. The handler validates nothing: the empty room code gets a table
  entry like any other, an unknown role is served as a viewer, and nothing is reported.
\<close>

theorem join_room_validation_counterexample:
  "join_room [] ''C'' [] ''viewer'' =
     ([([], \<lparr>streamer = None, viewers = [''C'']\<rparr>)], [SocketJoin ''C'' []])
   \<and> join_room [] ''C'' ''R'' ''admin'' =
     ([(''R'', \<lparr>streamer = None, viewers = [''C'']\<rparr>)], [SocketJoin ''C'' ''R''])"
  by (simp add: join_room_def rooms_has_def rooms_get_def rooms_set_def viewers_add_def
      truthy_def)

text \<open>
  Claim C8, amended: \<^verbatim>\<open>join-room\<close> accepts every room code, the empty one included,
  and every role: after it the table has an entry for the room code, a role other than
  \<^verbatim>\<open>streamer\<close> is handled as \<^verbatim>\<open>viewer\<close> is, and the only rejection it ever reports
  is the error sent to the caller who asks to stream in a room whose streamer slot is
  occupied.
\<close>

theorem join_room_accepts_any_request:
  "rooms_get (fst (join_room t C roomId role)) roomId \<noteq> None
   \<and> (role \<noteq> ''streamer'' \<longrightarrow> join_room t C roomId role = join_room t C roomId ''viewer'')
   \<and> (Emit tg (Error m) \<in> set (snd (join_room t C roomId role)) \<longrightarrow>
        role = ''streamer'' \<and> tg = Direct C \<and> m = ''Room already has a streamer'' \<and>
        (\<exists>room. rooms_get t roomId = Some room \<and> truthy (streamer room)))"
proof -
  obtain t0 room where g0: "rooms_get t0 roomId = Some room"
    and t0: "t0 = (if \<not> rooms_has t roomId
           then rooms_set t roomId \<lparr>streamer = None, viewers = []\<rparr> else t)"
    and first: "join_room t C roomId role =
       (if role = ''streamer'' then
          (if truthy (streamer room) then
             (t0, [SocketJoin C roomId,
                   Emit (Direct C) (Error ''Room already has a streamer'')])
           else
             (rooms_set t0 roomId (room\<lparr>streamer := Some C\<rparr>),
              SocketJoin C roomId # map (\<lambda>viewerId. Emit (To viewerId) StreamerJoined) (viewers room)))
        else
          (rooms_set t0 roomId (room\<lparr>viewers := viewers_add (viewers room) C\<rparr>),
           SocketJoin C roomId #
             (if truthy (streamer room)
              then [Emit (To (the (streamer room))) (ViewerJoined C)] else [])))"
    by (rule join_room_cases)
  have a: "rooms_get (fst (join_room t C roomId role)) roomId \<noteq> None"
    using g0 by (simp add: first rooms_get_set)
  have b: "role \<noteq> ''streamer'' \<longrightarrow> join_room t C roomId role = join_room t C roomId ''viewer''"
    by (simp add: join_room_def)
  have tr: "truthy (streamer room) \<Longrightarrow>
            \<exists>room. rooms_get t roomId = Some room \<and> truthy (streamer room)"
    using g0 unfolding t0
    by (cases "rooms_has t roomId") (auto simp: rooms_get_set truthy_def)
  have c: "Emit tg (Error m) \<in> set (snd (join_room t C roomId role)) \<longrightarrow>
        role = ''streamer'' \<and> tg = Direct C \<and> m = ''Room already has a streamer'' \<and>
        (\<exists>room. rooms_get t roomId = Some room \<and> truthy (streamer room))"
    using tr by (auto simp: first split: if_splits)
  show ?thesis using a b c by blast
qed

theorem join_room_accepts_any_request_witness:
  "''admin'' \<noteq> ''streamer''
   \<and> join_room [] ''C'' [] ''admin'' = join_room [] ''C'' [] ''viewer''
   \<and> rooms_get (fst (join_room [] ''C'' [] ''admin'')) [] \<noteq> None
   \<and> Emit (Direct ''T'') (Error ''Room already has a streamer'')
       \<in> set (snd (join_room [(''R'', \<lparr>streamer = Some ''S'', viewers = []\<rparr>)] ''T'' ''R'' ''streamer''))
   \<and> (\<exists>room. rooms_get [(''R'', \<lparr>streamer = Some ''S'', viewers = []\<rparr>)] ''R'' = Some room
         \<and> truthy (streamer room))"
proof -
  have e: "Emit (Direct ''T'') (Error ''Room already has a streamer'')
       \<in> set (snd (join_room [(''R'', \<lparr>streamer = Some ''S'', viewers = []\<rparr>)] ''T'' ''R'' ''streamer''))"
    by (simp add: join_room_def rooms_has_def rooms_get_def truthy_def)
  have n: "''admin'' \<noteq> ''streamer''" by simp
  have a: "rooms_get (fst (join_room [] ''C'' [] ''admin'')) [] \<noteq> None
       \<and> join_room [] ''C'' [] ''admin'' = join_room [] ''C'' [] ''viewer''"
    using n join_room_accepts_any_request [of "[]" "''C''" "[]" "''admin''"] by blast
  have b: "\<exists>room. rooms_get [(''R'', \<lparr>streamer = Some ''S'', viewers = []\<rparr>)] ''R'' = Some room
         \<and> truthy (streamer room)"
    using e join_room_accepts_any_request
        [of "[(''R'', \<lparr>streamer = Some ''S'', viewers = []\<rparr>)]" "''T''" "''R''" "''streamer''"
            "Direct ''T''" "''Room already has a streamer''"]
    by blast
  show ?thesis using n a b e by blast
qed

text \<open>
  Claim C9. For a connection \<open>C\<close> that is neither the streamer nor a viewer of any room
  in the table, \<^verbatim>\<open>leave-room\<close> for any room code and \<^verbatim>\<open>disconnect\<close> return the table
  as it was and emit nothing. (Both handlers are total: no branch of theirs can throw.)
\<close>

theorem departure_of_stranger_noop:
  assumes "\<forall>(k, room) \<in> set t. streamer room \<noteq> Some C \<and> C \<notin> set (viewers room)"
  shows "handleLeaveRoom t C r = (t, []) \<and> disconnect t C = (t, [])"
proof -
  have none: "handleDisconnect t C k room = (t, [])" if "rooms_get t k = Some room" for k room
  proof -
    from that have "(k, room) \<in> set t" by (simp add: rooms_get_def map_of_SomeD)
    then show ?thesis using assms by (auto simp: handleDisconnect_def)
  qed
  have l: "handleLeaveRoom t C r = (t, [])"
    using none by (simp add: handleLeaveRoom_eq split: option.splits)
  have "disconnect_loop C ks (t, out) = (t, out)" for ks out
    by (induction ks) (auto simp: none split: option.splits)
  then show ?thesis using l by (simp add: disconnect_def)
qed

theorem departure_of_stranger_noop_witness:
  "list_all (\<lambda>(k, room). streamer room \<noteq> Some ''X'' \<and> ''X'' \<notin> set (viewers room))
       [(''R'', \<lparr>streamer = Some ''S'', viewers = [''V'']\<rparr>),
        (''Q'', \<lparr>streamer = None, viewers = [''W'']\<rparr>)]
   \<and> handleLeaveRoom [(''R'', \<lparr>streamer = Some ''S'', viewers = [''V'']\<rparr>),
                       (''Q'', \<lparr>streamer = None, viewers = [''W'']\<rparr>)] ''X'' ''R'' =
       ([(''R'', \<lparr>streamer = Some ''S'', viewers = [''V'']\<rparr>),
         (''Q'', \<lparr>streamer = None, viewers = [''W'']\<rparr>)], [])
   \<and> disconnect [(''R'', \<lparr>streamer = Some ''S'', viewers = [''V'']\<rparr>),
                  (''Q'', \<lparr>streamer = None, viewers = [''W'']\<rparr>)] ''X'' =
       ([(''R'', \<lparr>streamer = Some ''S'', viewers = [''V'']\<rparr>),
         (''Q'', \<lparr>streamer = None, viewers = [''W'']\<rparr>)], [])"
  using departure_of_stranger_noop
    [of "[(''R'', \<lparr>streamer = Some ''S'', viewers = [''V'']\<rparr>),
          (''Q'', \<lparr>streamer = None, viewers = [''W'']\<rparr>)]" "''X''" "''R''"]
  by simp

text \<open>
  Claim C10. A signal whose \<^verbatim>\<open>to\<close> is anything but \<^verbatim>\<open>"streamer"\<close> is forwarded as a
  \<^verbatim>\<open>streamer-signal\<close> event addressed to \<^verbatim>\<open>to\<close>, carrying the payload as it came.
  The table is neither read nor written: the outcome is the same for every table, every
  room value and every sender.
\<close>

theorem signal_to_connection_forwarded:
  assumes "to \<noteq> ''streamer''"
  shows "step t (Signal sender to payload room) =
           (t, [Emit (To to) (StreamerSignal payload)])"
  using assms by (simp add: signal_def)

theorem signal_to_connection_forwarded_witness:
  "''V'' \<noteq> ''streamer''
   \<and> step [] (Signal ''X'' ''V'' ''answer'' ''nowhere'') =
       ([], [Emit (To ''V'') (StreamerSignal ''answer'')])"
  using signal_to_connection_forwarded [of "''V''" "[]" "''X''" "''answer''" "''nowhere''"]
  by simp

end
